theory Spec2Isabelle
  imports Main
begin

section \<open>Strings, errors and the two regular expressions of the flag parser\<close>

text \<open>
  JavaScript strings are modelled as \<^typ>\<open>string\<close>: sequences of code units below 256.
  Every \<open>throw new Error(...)\<close> of the sources is one constructor of \<open>error\<close>; an error
  raised by the file system carries its \<open>code\<close> (\<open>ENOENT\<close>, \<open>EACCES\<close>, ...),
  \<open>JsonError\<close> is a failure of \<open>JSON.parse\<close>, \<open>ProcessError\<close> the error of a
  subprocess, and \<open>TypeError\<close> is what the engine raises when a property of
  \<open>undefined\<close> or \<open>null\<close> is read.
\<close>

datatype error =
    InvalidFlag string
  | InvalidDependency string
  | DuplicateLabel string
  | ReservedImplementation "string list"
  | ReservedBenchmark "string list"
  | SystemError string
  | NoSuchFile string
  | NoPackageJson string
  | InternalNoDeps string
  | JsonError
  | ProcessError string
  | TypeError

text \<open>
  In a pattern without the \<open>s\<close> flag the dot matches every code unit except the line
  terminators; of those, line feed and carriage return are below 256.
\<close>

definition dot :: "char \<Rightarrow> bool" where
  "dot c = (c \<noteq> CHR 0x0A \<and> c \<noteq> CHR 0x0D)"

text \<open>
  The backtracking matcher, in continuation style. A continuation receives the text a
  group has captured and the rest of the input; the first success in the engine's order
  of attempts is the match.
  \<^item> \<open>plus_lazy\<close> is \<open>(.+?)\<close>: the shortest run of at least one dot character first.
  \<^item> \<open>plus_greedy\<close> is \<open>(.+)\<close>: the longest run first.
  \<^item> \<open>lit\<close> is a literal.
  \<^item> \<open>search\<close> is the unanchored search of \<open>String.prototype.match\<close> with a
    non-global pattern: start positions from left to right.
\<close>

fun plus_lazy :: "(string \<Rightarrow> string \<Rightarrow> 'a option) \<Rightarrow> string \<Rightarrow> string \<Rightarrow> 'a option" where
  "plus_lazy k acc [] = None"
| "plus_lazy k acc (c # cs) =
     (if dot c
      then (case k (acc @ [c]) cs of
              Some r \<Rightarrow> Some r
            | None \<Rightarrow> plus_lazy k (acc @ [c]) cs)
      else None)"

fun plus_greedy :: "(string \<Rightarrow> string \<Rightarrow> 'a option) \<Rightarrow> string \<Rightarrow> string \<Rightarrow> 'a option" where
  "plus_greedy k acc [] = None"
| "plus_greedy k acc (c # cs) =
     (if dot c
      then (case plus_greedy k (acc @ [c]) cs of
              Some r \<Rightarrow> Some r
            | None \<Rightarrow> k (acc @ [c]) cs)
      else None)"

fun lit :: "string \<Rightarrow> (string \<Rightarrow> 'a option) \<Rightarrow> string \<Rightarrow> 'a option" where
  "lit [] k s = k s"
| "lit (p # ps) k [] = None"
| "lit (p # ps) k (c # cs) = (if p = c then lit ps k cs else None)"

fun search :: "(string \<Rightarrow> 'a option) \<Rightarrow> string \<Rightarrow> 'a option" where
  "search m [] = m []"
| "search m (c # cs) = (case m (c # cs) of Some r \<Rightarrow> Some r | None \<Rightarrow> search m cs)"

text \<open>
  The capture groups of \<open>/(.+?)\/(?:(default)|(?:(.+?)=(.+)))/\<close>: group 1 is the
  implementation; either group 2 (\<open>default\<close>) is defined, or groups 3 and 4 (the label
  and the version list) are.
\<close>

datatype flag_match =
    MatchDefault string
  | MatchLabel string string string

definition flagMatch :: "string \<Rightarrow> flag_match option" where
  "flagMatch flag =
     search
       (plus_lazy
          (\<lambda>implementation. lit ''/''
             (\<lambda>rest.
                case lit ''default'' (\<lambda>_. Some (MatchDefault implementation)) rest of
                  Some m \<Rightarrow> Some m
                | None \<Rightarrow>
                    plus_lazy
                      (\<lambda>label. lit ''=''
                         (plus_greedy
                            (\<lambda>packageVersions _.
                               Some (MatchLabel implementation label packageVersions))
                            []))
                      [] rest))
          [])
       flag"

text \<open>The pattern \<open>/(.+)@(.+)/\<close> of one entry of the version list.\<close>

definition pvMatch :: "string \<Rightarrow> (string \<times> string) option" where
  "pvMatch pv =
     search
       (plus_greedy
          (\<lambda>pkg. lit ''@'' (plus_greedy (\<lambda>version _. Some (pkg, version)) []))
          [])
       pv"

text \<open>\<open>String.prototype.split\<close> with a one-character separator.\<close>

fun split_from :: "char \<Rightarrow> string \<Rightarrow> string \<Rightarrow> string list" where
  "split_from sep cur [] = [cur]"
| "split_from sep cur (c # cs) =
     (if c = sep then cur # split_from sep [] cs else split_from sep (cur @ [c]) cs)"

definition split :: "char \<Rightarrow> string \<Rightarrow> string list" where
  "split sep s = split_from sep [] s"

section \<open>The version-flag parser (\<open>parsePackageVersions\<close>)\<close>

record PackageVersion =
  label :: string
  dependencyOverrides :: "string \<rightharpoonup> string"

text \<open>
  \<open>dependencyOverrides[pkg] = version\<close> on an object literal: the key \<open>__proto__\<close> is
  the inherited accessor, whose setter ignores a string, so no property is created.
\<close>

definition assign :: "(string \<rightharpoonup> string) \<Rightarrow> string \<Rightarrow> string \<Rightarrow> (string \<rightharpoonup> string)" where
  "assign obj k v = (if k = ''__proto__'' then obj else obj(k \<mapsto> v))"

text \<open>The loop over \<open>packageVersions.split(',')\<close>.\<close>

fun parseOverrides :: "string list \<Rightarrow> (string \<rightharpoonup> string) \<Rightarrow> error + (string \<rightharpoonup> string)" where
  "parseOverrides [] overrides = Inr overrides"
| "parseOverrides (pv # pvs) overrides =
     (case pvMatch pv of
        None \<Rightarrow> Inl (InvalidDependency pv)
      | Some (pkg, version) \<Rightarrow> parseOverrides pvs (assign overrides pkg version))"

text \<open>\<open>versions.get\<close>, creating the array on first use, then \<open>arr.push\<close>.\<close>

definition pushVersion ::
  "(string \<rightharpoonup> PackageVersion list) \<Rightarrow> string \<Rightarrow> PackageVersion \<Rightarrow> (string \<rightharpoonup> PackageVersion list)" where
  "pushVersion versions implementation v =
     versions(implementation \<mapsto>
       (case versions implementation of None \<Rightarrow> [] | Some arr \<Rightarrow> arr) @ [v])"

text \<open>
  The loop over the flags, with the two pieces of state it updates: the map \<open>versions\<close>
  and the set \<open>uniqueImplLabels\<close>.
\<close>

fun parseFlags ::
  "string list \<Rightarrow> (string \<rightharpoonup> PackageVersion list) \<Rightarrow> string set
     \<Rightarrow> error + (string \<rightharpoonup> PackageVersion list)" where
  "parseFlags [] versions uniqueImplLabels = Inr versions"
| "parseFlags (flag # flags) versions uniqueImplLabels =
     (case flagMatch flag of
        None \<Rightarrow> Inl (InvalidFlag flag)
      | Some (MatchDefault implementation) \<Rightarrow>
          parseFlags flags
            (pushVersion versions implementation
               \<lparr>label = ''default'', dependencyOverrides = Map.empty\<rparr>)
            uniqueImplLabels
      | Some (MatchLabel implementation lbl packageVersions) \<Rightarrow>
          (let implLabel = implementation @ ''/'' @ lbl in
           if implLabel \<in> uniqueImplLabels then Inl (DuplicateLabel implLabel)
           else
             (case parseOverrides (split CHR '','' packageVersions) Map.empty of
                Inl e \<Rightarrow> Inl e
              | Inr overrides \<Rightarrow>
                  parseFlags flags
                    (pushVersion versions implementation
                       \<lparr>label = lbl, dependencyOverrides = overrides\<rparr>)
                    (insert implLabel uniqueImplLabels))))"

definition parsePackageVersions :: "string list \<Rightarrow> error + (string \<rightharpoonup> PackageVersion list)" where
  "parsePackageVersions flags = parseFlags flags Map.empty {}"

section \<open>The host: library calls the two modules make\<close>

text \<open>
  The modules call Node's \<open>path\<close> and \<open>crypto\<close>, \<open>fs-extra\<close> and
  \<open>String.prototype.localeCompare\<close>. None of these is code of the repository; they are
  the fields of \<open>host\<close>, and a theorem holds for every host unless it says otherwise.
  The file-system fields answer for the disk as it is while one call of \<open>specsFromOpts\<close>
  or \<open>makeServerPlans\<close> runs: both only read it. A call that fails gives the \<open>code\<close>
  of its error (\<open>Inl\<close>), which the caller sees as \<open>SystemError code\<close>.
  \<^item> \<open>fs_readConfig\<close> is \<open>fsExtra.readJson\<close> at the type \<open>ConfigFormat\<close> the caller
    gives it; \<open>None\<close> is a file holding \<open>null\<close>.
  \<^item> \<open>fs_readManifest\<close> is \<open>fsExtra.readJson\<close> on a \<open>package.json\<close>.
\<close>

type_synonym config = "string \<rightharpoonup> string"

record Variant =
  variant_name :: "string option"
  variant_config :: "config option"

record ConfigFormat =
  variants :: "Variant list option"

record Stats =
  isDirectory :: bool
  isFile :: bool

record Manifest =
  manifest_dependencies :: "(string \<rightharpoonup> string) option"

record host =
  path_join :: "string list \<Rightarrow> string"
  path_dirname :: "string \<Rightarrow> string"
  path_resolve :: "string list \<Rightarrow> string"
  path_relative :: "string \<Rightarrow> string \<Rightarrow> string"
  sha256_hex :: "string \<Rightarrow> string"
  localeCompare :: "string \<Rightarrow> string \<Rightarrow> int"
  fs_readdir :: "string \<Rightarrow> string + string list"
  fs_pathExists :: "string \<Rightarrow> bool"
  fs_stat :: "string \<Rightarrow> string + Stats"
  fs_readConfig :: "string \<Rightarrow> string + ConfigFormat option"
  fs_readManifest :: "string \<Rightarrow> string + Manifest option"

section \<open>The spec expander (\<open>specsFromOpts\<close>)\<close>

record Opts =
  opt_name :: string
  opt_implementation :: string
  opt_variant :: string
  opt_package_version :: "string list"

text \<open>The object literals pushed at lines 95 and 106 of \<open>specs.ts\<close>.\<close>

record BenchmarkSpec =
  name :: string
  implementation :: string
  version :: PackageVersion
  variant :: string
  config :: config

definition ignoreFiles :: "string set" where
  "ignoreFiles =
     {''node_modules'', ''package.json'', ''package-lock.json'', ''common'', ''versions''}"

text \<open>\<open>String.prototype.trim\<close>: white space and line terminators, those below 256.\<close>

definition whiteSpace :: "char \<Rightarrow> bool" where
  "whiteSpace c =
     (c = CHR 0x09 \<or> c = CHR 0x0A \<or> c = CHR 0x0B \<or> c = CHR 0x0C \<or> c = CHR 0x0D
      \<or> c = CHR 0x20 \<or> c = CHR 0xA0)"

definition trim :: "string \<Rightarrow> string" where
  "trim s = rev (dropWhile whiteSpace (rev (dropWhile whiteSpace s)))"

text \<open>Line 55: the requested variant names.\<close>

definition requestedVariants :: "Opts \<Rightarrow> string set" where
  "requestedVariants opts =
     set (filter (\<lambda>v. v \<noteq> []) (map trim (split CHR '','' (opt_variant opts))))"

text \<open>Lines 42 to 53: the implementations to visit.\<close>

definition listImplementations :: "host \<Rightarrow> string \<Rightarrow> Opts \<Rightarrow> error + string list" where
  "listImplementations h repoRoot opts =
     (if opt_implementation opts = ''*''
      then (case fs_readdir h (path_join h [repoRoot, ''benchmarks'']) of
              Inl code \<Rightarrow> Inl (SystemError code)
            | Inr impls \<Rightarrow> Inr (filter (\<lambda>dir. dir \<notin> ignoreFiles) impls))
      else (let impls = split CHR '','' (opt_implementation opts);
                badNames = filter (\<lambda>dir. dir \<in> ignoreFiles) impls
            in if length badNames > 0 then Inl (ReservedImplementation badNames)
               else Inr impls))"

text \<open>Lines 60 to 70: the benchmarks of one implementation directory.\<close>

definition listBenchmarks :: "host \<Rightarrow> string \<Rightarrow> Opts \<Rightarrow> error + string list" where
  "listBenchmarks h implDir opts =
     (if opt_name opts = ''*''
      then (case fs_readdir h implDir of
              Inl code \<Rightarrow> Inl (SystemError code)
            | Inr benchmarks \<Rightarrow> Inr (filter (\<lambda>d. d \<notin> ignoreFiles) benchmarks))
      else (let benchmarks = split CHR '','' (opt_name opts);
                badNames = filter (\<lambda>dir. dir \<in> ignoreFiles) benchmarks
            in if length badNames > 0 then Inl (ReservedBenchmark badNames)
               else Inr benchmarks))"

text \<open>
  Lines 76 to 83: the configuration stays \<open>undefined\<close> when the file does not exist, and
  any other failure of the read is thrown again.
\<close>

definition loadConfig :: "host \<Rightarrow> string \<Rightarrow> error + ConfigFormat option" where
  "loadConfig h benchDir =
     (case fs_readConfig h (path_join h [benchDir, ''benchmarks.json'']) of
        Inl code \<Rightarrow> (if code \<noteq> ''ENOENT'' then Inl (SystemError code) else Inr None)
      | Inr c \<Rightarrow> Inr c)"

text \<open>Lines 84 and 85: \<open>versions.get(implementation) || [default]\<close>; an array is truthy.\<close>

definition defaultVersion :: PackageVersion where
  "defaultVersion = \<lparr>label = ''default'', dependencyOverrides = Map.empty\<rparr>"

definition implVersionsOf ::
  "(string \<rightharpoonup> PackageVersion list) \<Rightarrow> string \<Rightarrow> PackageVersion list" where
  "implVersionsOf versions impl =
     (case versions impl of Some arr \<Rightarrow> arr | None \<Rightarrow> [defaultVersion])"

text \<open>
  \<open>config && config.variants && config.variants.length\<close>: the declared variants when the
  test is truthy, that is, when there is at least one.
\<close>

definition declaredVariants :: "ConfigFormat option \<Rightarrow> Variant list" where
  "declaredVariants c =
     (case c of
        None \<Rightarrow> []
      | Some cfg \<Rightarrow> (case variants cfg of None \<Rightarrow> [] | Some vs \<Rightarrow> vs))"

text \<open>Lines 92 and 93: \<open>variant.name && (variants.has('*') || variants.has(variant.name))\<close>.\<close>

definition variantSelected :: "string set \<Rightarrow> Variant \<Rightarrow> bool" where
  "variantSelected requested v =
     (case variant_name v of
        None \<Rightarrow> False
      | Some n \<Rightarrow> n \<noteq> [] \<and> (''*'' \<in> requested \<or> n \<in> requested))"

text \<open>Lines 94 to 101: one spec for each version, for one declared variant.\<close>

definition variantSpecs ::
  "string \<Rightarrow> string \<Rightarrow> PackageVersion list \<Rightarrow> Variant \<Rightarrow> BenchmarkSpec list" where
  "variantSpecs nm impl implVersions v =
     map (\<lambda>ver.
            \<lparr>name = nm, implementation = impl, version = ver,
             variant = (case variant_name v of Some n \<Rightarrow> n | None \<Rightarrow> []),
             config = (case variant_config v of Some c \<Rightarrow> c | None \<Rightarrow> Map.empty)\<rparr>)
         implVersions"

text \<open>Lines 105 to 112: one spec for each version, with no variant.\<close>

definition plainSpecs :: "string \<Rightarrow> string \<Rightarrow> PackageVersion list \<Rightarrow> BenchmarkSpec list" where
  "plainSpecs nm impl implVersions =
     map (\<lambda>ver.
            \<lparr>name = nm, implementation = impl, version = ver,
             variant = [], config = Map.empty\<rparr>)
         implVersions"

text \<open>Lines 84 to 113: what one benchmark directory pushes onto \<open>specs\<close>.\<close>

definition benchmarkSpecs ::
  "Opts \<Rightarrow> (string \<rightharpoonup> PackageVersion list) \<Rightarrow> string set \<Rightarrow> string \<Rightarrow> string
     \<Rightarrow> ConfigFormat option \<Rightarrow> BenchmarkSpec list" where
  "benchmarkSpecs opts versions requested impl nm c =
     (let implVersions = implVersionsOf versions impl in
      if declaredVariants c \<noteq> []
      then concat (map (\<lambda>v. if variantSelected requested v
                             then variantSpecs nm impl implVersions v else [])
                       (declaredVariants c))
      else if opt_variant opts = ''*'' then plainSpecs nm impl implVersions
      else [])"

text \<open>Lines 71 to 114: the loop over the benchmarks of one implementation.\<close>

fun benchmarksLoop ::
  "host \<Rightarrow> Opts \<Rightarrow> (string \<rightharpoonup> PackageVersion list) \<Rightarrow> string set \<Rightarrow> string \<Rightarrow> string
     \<Rightarrow> string list \<Rightarrow> BenchmarkSpec list \<Rightarrow> error + BenchmarkSpec list" where
  "benchmarksLoop h opts versions requested impl implDir [] acc = Inr acc"
| "benchmarksLoop h opts versions requested impl implDir (nm # names) acc =
     (let benchDir = path_join h [implDir, nm] in
      if \<not> fs_pathExists h benchDir
      then benchmarksLoop h opts versions requested impl implDir names acc
      else (case loadConfig h benchDir of
              Inl e \<Rightarrow> Inl e
            | Inr c \<Rightarrow>
                benchmarksLoop h opts versions requested impl implDir names
                  (acc @ benchmarkSpecs opts versions requested impl nm c)))"

text \<open>Lines 58 to 115: the loop over the implementations.\<close>

fun implementationsLoop ::
  "host \<Rightarrow> string \<Rightarrow> Opts \<Rightarrow> (string \<rightharpoonup> PackageVersion list) \<Rightarrow> string set
     \<Rightarrow> string list \<Rightarrow> BenchmarkSpec list \<Rightarrow> error + BenchmarkSpec list" where
  "implementationsLoop h repoRoot opts versions requested [] acc = Inr acc"
| "implementationsLoop h repoRoot opts versions requested (impl # impls) acc =
     (let implDir = path_join h [repoRoot, ''benchmarks'', impl] in
      case listBenchmarks h implDir opts of
        Inl e \<Rightarrow> Inl e
      | Inr benchmarks \<Rightarrow>
          (case benchmarksLoop h opts versions requested impl implDir benchmarks acc of
             Inl e \<Rightarrow> Inl e
           | Inr acc' \<Rightarrow> implementationsLoop h repoRoot opts versions requested impls acc'))"

text \<open>Lines 117 to 131: the comparison function handed to \<open>sort\<close>.\<close>

definition compareSpecs :: "host \<Rightarrow> BenchmarkSpec \<Rightarrow> BenchmarkSpec \<Rightarrow> int" where
  "compareSpecs h a b =
     (if name a \<noteq> name b then localeCompare h (name a) (name b)
      else if variant a \<noteq> variant b then localeCompare h (variant a) (variant b)
      else if implementation a \<noteq> implementation b
        then localeCompare h (implementation a) (implementation b)
      else if label (version a) \<noteq> label (version b)
        then localeCompare h (label (version a)) (label (version b))
      else 0)"

text \<open>
  \<open>Array.prototype.sort\<close> with a comparison function, as a stable insertion sort: an
  element goes before the first element it does not compare greater than.
\<close>

fun insertBy :: "('a \<Rightarrow> 'a \<Rightarrow> int) \<Rightarrow> 'a \<Rightarrow> 'a list \<Rightarrow> 'a list" where
  "insertBy cmp x [] = [x]"
| "insertBy cmp x (y # ys) = (if cmp x y \<le> 0 then x # y # ys else y # insertBy cmp x ys)"

definition sortBy :: "('a \<Rightarrow> 'a \<Rightarrow> int) \<Rightarrow> 'a list \<Rightarrow> 'a list" where
  "sortBy cmp xs = foldr (insertBy cmp) xs []"

definition specsFromOpts :: "host \<Rightarrow> string \<Rightarrow> Opts \<Rightarrow> error + BenchmarkSpec list" where
  "specsFromOpts h repoRoot opts =
     (case parsePackageVersions (opt_package_version opts) of
        Inl e \<Rightarrow> Inl e
      | Inr versions \<Rightarrow>
          (case listImplementations h repoRoot opts of
             Inl e \<Rightarrow> Inl e
           | Inr impls \<Rightarrow>
               (case implementationsLoop h repoRoot opts versions (requestedVariants opts)
                       impls [] of
                  Inl e \<Rightarrow> Inl e
                | Inr acc \<Rightarrow> Inr (sortBy (compareSpecs h) acc))))"

section \<open>\<open>JSON.stringify\<close> and \<open>JSON.parse\<close> on arrays of strings\<close>

text \<open>
  \<open>makeServerPlans\<close> keys its two maps by \<open>JSON.stringify\<close> of an array of three
  strings and reads the array back with \<open>JSON.parse\<close>; \<open>hashStrings\<close> serialises its
  arguments the same way. \<open>quoteChar\<close> is the escaping of one code unit by
  \<open>QuoteJSONString\<close>.
\<close>

definition hexDigit :: "nat \<Rightarrow> char" where
  "hexDigit n = (if n < 10 then char_of (48 + n) else char_of (87 + n))"

definition quoteChar :: "char \<Rightarrow> string" where
  "quoteChar c =
     (if c = CHR 0x08 then [CHR 0x5C, CHR ''b'']
      else if c = CHR 0x09 then [CHR 0x5C, CHR ''t'']
      else if c = CHR 0x0A then [CHR 0x5C, CHR ''n'']
      else if c = CHR 0x0C then [CHR 0x5C, CHR ''f'']
      else if c = CHR 0x0D then [CHR 0x5C, CHR ''r'']
      else if c = CHR 0x22 then [CHR 0x5C, CHR 0x22]
      else if c = CHR 0x5C then [CHR 0x5C, CHR 0x5C]
      else if (of_char c :: nat) < 32
        then [CHR 0x5C, CHR ''u'', CHR ''0'', CHR ''0'',
              hexDigit (of_char c div 16), hexDigit (of_char c mod 16)]
      else [c])"

definition quoteJSONString :: "string \<Rightarrow> string" where
  "quoteJSONString s = CHR 0x22 # concat (map quoteChar s) @ [CHR 0x22]"

fun joinWith :: "string \<Rightarrow> string list \<Rightarrow> string" where
  "joinWith sep [] = []"
| "joinWith sep [x] = x"
| "joinWith sep (x # y # ys) = x @ sep @ joinWith sep (y # ys)"

definition JSON_stringify :: "string list \<Rightarrow> string" where
  "JSON_stringify xs = ''['' @ joinWith '','' (map quoteJSONString xs) @ '']''"

text \<open>
  \<open>JSON.parse\<close>, restricted to the texts that denote an array of strings: a recogniser
  that reads one code unit at a time. \<open>None\<close> stands for a \<open>SyntaxError\<close> and for every
  value that is not an array of strings with code units below 256.
\<close>

definition jsonWhiteSpace :: "char \<Rightarrow> bool" where
  "jsonWhiteSpace c = (c = CHR 0x20 \<or> c = CHR 0x09 \<or> c = CHR 0x0A \<or> c = CHR 0x0D)"

definition hexValue :: "char \<Rightarrow> nat option" where
  "hexValue c =
     (let n = (of_char c :: nat) in
      if 48 \<le> n \<and> n \<le> 57 then Some (n - 48)
      else if 97 \<le> n \<and> n \<le> 102 then Some (n - 87)
      else if 65 \<le> n \<and> n \<le> 70 then Some (n - 55)
      else None)"

definition unicodeEscape :: "char \<Rightarrow> char \<Rightarrow> char \<Rightarrow> char \<Rightarrow> char option" where
  "unicodeEscape a b c d =
     (case (hexValue a, hexValue b, hexValue c, hexValue d) of
        (Some p, Some q, Some r, Some s) \<Rightarrow>
          (let n = ((p * 16 + q) * 16 + r) * 16 + s in
           if n < 256 then Some (char_of n) else None)
      | _ \<Rightarrow> None)"

definition simpleEscape :: "char \<Rightarrow> char option" where
  "simpleEscape e =
     (if e = CHR 0x22 \<or> e = CHR 0x5C \<or> e = CHR ''/'' then Some e
      else if e = CHR ''b'' then Some (CHR 0x08)
      else if e = CHR ''f'' then Some (CHR 0x0C)
      else if e = CHR ''n'' then Some (CHR 0x0A)
      else if e = CHR ''r'' then Some (CHR 0x0D)
      else if e = CHR ''t'' then Some (CHR 0x09)
      else None)"

datatype json_state =
    BeforeArray
  | FirstElement
  | NextElement
  | InString string
  | AfterElement
  | AfterArray

fun parseArray :: "json_state \<Rightarrow> string list \<Rightarrow> string \<Rightarrow> string list option" where
  "parseArray AfterArray elems [] = Some elems"
| "parseArray st elems [] = None"
| "parseArray BeforeArray elems (c # cs) =
     (if jsonWhiteSpace c then parseArray BeforeArray elems cs
      else if c = CHR ''['' then parseArray FirstElement elems cs
      else None)"
| "parseArray FirstElement elems (c # cs) =
     (if jsonWhiteSpace c then parseArray FirstElement elems cs
      else if c = CHR '']'' then parseArray AfterArray elems cs
      else if c = CHR 0x22 then parseArray (InString []) elems cs
      else None)"
| "parseArray NextElement elems (c # cs) =
     (if jsonWhiteSpace c then parseArray NextElement elems cs
      else if c = CHR 0x22 then parseArray (InString []) elems cs
      else None)"
| "parseArray (InString s) elems (c # cs) =
     (if c = CHR 0x22 then parseArray AfterElement (elems @ [s]) cs
      else if c = CHR 0x5C then
        (case cs of
           [] \<Rightarrow> None
         | e # r \<Rightarrow>
             if e = CHR ''u'' then
               (case r of
                  a # b # c' # d # r' \<Rightarrow>
                    (case unicodeEscape a b c' d of
                       None \<Rightarrow> None
                     | Some x \<Rightarrow> parseArray (InString (s @ [x])) elems r')
                | _ \<Rightarrow> None)
             else
               (case simpleEscape e of
                  None \<Rightarrow> None
                | Some x \<Rightarrow> parseArray (InString (s @ [x])) elems r))
      else if (of_char c :: nat) < 32 then None
      else parseArray (InString (s @ [c])) elems cs)"
| "parseArray AfterElement elems (c # cs) =
     (if jsonWhiteSpace c then parseArray AfterElement elems cs
      else if c = CHR '','' then parseArray NextElement elems cs
      else if c = CHR '']'' then parseArray AfterArray elems cs
      else None)"
| "parseArray AfterArray elems (c # cs) =
     (if jsonWhiteSpace c then parseArray AfterArray elems cs else None)"

definition JSON_parse :: "string \<Rightarrow> string list option" where
  "JSON_parse text = parseArray BeforeArray [] text"

section \<open>The plan grouper (\<open>makeServerPlans\<close>)\<close>

text \<open>
  What \<open>versions.ts\<close> reads of a spec: \<open>spec.name\<close> and, under \<open>spec.url\<close>, the
  fields \<open>kind\<close>, \<open>implementation\<close> and \<open>version\<close>; a url of kind \<open>remote\<close> is
  read no further. \<open>url\<close> is optional here because an object handed over at run time
  may lack the property: reading \<open>spec.url.kind\<close> then raises \<open>TypeError\<close>.
\<close>

datatype Url =
    LocalUrl (url_implementation: string) (url_version: PackageVersion)
  | RemoteUrl

record UrlBenchmarkSpec =
  spec_name :: string
  url :: "Url option"

record NpmPackageJson =
  isPrivate :: bool
  dependencies :: "string \<rightharpoonup> string"

record NpmInstall =
  installDir :: string
  packageJson :: NpmPackageJson

record MountPoint =
  urlPath :: string
  diskPath :: string

record ServerPlan =
  specs :: "UrlBenchmarkSpec list"
  npmInstalls :: "NpmInstall list"
  mountPoints :: "MountPoint list"

datatype file_kind = KindFile | KindDir

definition fileKind :: "host \<Rightarrow> string \<Rightarrow> error + file_kind option" where
  "fileKind h p =
     (case fs_stat h p of
        Inl code \<Rightarrow> (if code \<noteq> ''ENOENT'' then Inl (SystemError code) else Inr None)
      | Inr stat \<Rightarrow>
          (if isDirectory stat then Inr (Some KindDir)
           else if isFile stat then Inr (Some KindFile)
           else Inr None))"

text \<open>
  The \<open>while (true)\<close> of \<open>findPackageJsonPath\<close>. Nothing in the module bounds the
  ascent: it ends when the host's \<open>path.resolve(cur, '..')\<close> returns \<open>cur\<close>. The outer
  \<open>None\<close> is a loop that never returns.
\<close>

partial_function (option) findPackageJsonLoop :: "host \<Rightarrow> string \<Rightarrow> string option option" where
  "findPackageJsonLoop h cur =
     (if fs_pathExists h (path_join h [cur, ''package.json''])
      then Some (Some (path_join h [cur, ''package.json'']))
      else if path_resolve h [cur, ''..''] = cur then Some None
      else findPackageJsonLoop h (path_resolve h [cur, ''..'']))"

definition findPackageJsonPath :: "host \<Rightarrow> string \<Rightarrow> string option option" where
  "findPackageJsonPath h startDir = findPackageJsonLoop h (path_resolve h [startDir])"

definition hashStrings :: "host \<Rightarrow> string list \<Rightarrow> string" where
  "hashStrings h strings = sha256_hex h (JSON_stringify strings)"

text \<open>
  \<open>keySpecs\<close> is a \<open>Map\<close>, iterated in the order its keys were first set: an association
  list. \<open>pushSpec\<close> is lines 122 to 127: the array of the key, created on first use,
  gets the spec at its end.
\<close>

fun pushSpec :: "(string \<times> 'a list) list \<Rightarrow> string \<Rightarrow> 'a \<Rightarrow> (string \<times> 'a list) list" where
  "pushSpec [] key s = [(key, [s])]"
| "pushSpec ((k, arr) # rest) key s =
     (if k = key then (k, arr @ [s]) # rest else (k, arr) # pushSpec rest key s)"

type_synonym grouping =
  "(string \<times> UrlBenchmarkSpec list) list \<times> (string \<rightharpoonup> (string \<rightharpoonup> string))
     \<times> UrlBenchmarkSpec list"

text \<open>
  Lines 102 to 114: the \<open>package.json\<close> that governs a spec, and what it holds. The
  spec's path must exist; the search starts at the path, or at its directory when the
  path is a file. A manifest that holds \<open>null\<close> makes the later read of its
  \<open>dependencies\<close> a \<open>TypeError\<close>. The outer \<open>None\<close> is a search that never returns.
\<close>

definition locateManifest ::
  "host \<Rightarrow> string \<Rightarrow> string \<Rightarrow> string \<Rightarrow> (error + string \<times> Manifest) option" where
  "locateManifest h benchmarkRoot impl nm =
     (let diskPath = path_join h [benchmarkRoot, impl, nm] in
      case fileKind h diskPath of
        Inl e \<Rightarrow> Some (Inl e)
      | Inr None \<Rightarrow> Some (Inl (NoSuchFile diskPath))
      | Inr (Some kind) \<Rightarrow>
          (case findPackageJsonPath h
                  (if kind = KindFile then path_dirname h diskPath else diskPath) of
             None \<Rightarrow> None
           | Some None \<Rightarrow> Some (Inl (NoPackageJson diskPath))
           | Some (Some originalPackageJsonPath) \<Rightarrow>
               (case fs_readManifest h originalPackageJsonPath of
                  Inl code \<Rightarrow> Some (Inl (SystemError code))
                | Inr None \<Rightarrow> Some (Inl TypeError)
                | Inr (Some originalPackageJson) \<Rightarrow>
                    Some (Inr (originalPackageJsonPath, originalPackageJson)))))"

text \<open>
  Lines 93 to 133: one iteration of the loop over the specs, on the state \<open>keySpecs\<close>,
  \<open>keyDeps\<close>, \<open>defaultSpecs\<close>. A \<open>continue\<close> returns the state as it is. \<open>newDeps\<close>
  is the spread of the manifest's dependencies (none when the property is missing)
  followed by the spread of the overrides.
\<close>

definition groupSpec ::
  "host \<Rightarrow> string \<Rightarrow> UrlBenchmarkSpec \<Rightarrow> grouping \<Rightarrow> (error + grouping) option" where
  "groupSpec h benchmarkRoot s g =
     (case g of (keySpecs, keyDeps, defaultSpecs) \<Rightarrow>
      case url s of
        None \<Rightarrow> Some (Inl TypeError)
      | Some RemoteUrl \<Rightarrow> Some (Inr (keySpecs, keyDeps, defaultSpecs))
      | Some (LocalUrl impl ver) \<Rightarrow>
          if label ver = ''default''
          then Some (Inr (keySpecs, keyDeps, defaultSpecs @ [s]))
          else
            (case locateManifest h benchmarkRoot impl (spec_name s) of
               None \<Rightarrow> None
             | Some (Inl e) \<Rightarrow> Some (Inl e)
             | Some (Inr (originalPackageJsonPath, originalPackageJson)) \<Rightarrow>
                 (let key = JSON_stringify
                              [path_dirname h originalPackageJsonPath, impl, label ver];
                      newDeps =
                        (case manifest_dependencies originalPackageJson of
                           None \<Rightarrow> Map.empty
                         | Some d \<Rightarrow> d) ++ dependencyOverrides ver
                  in Some (Inr (pushSpec keySpecs key s, keyDeps(key \<mapsto> newDeps),
                                defaultSpecs)))))"

text \<open>Lines 92 to 134: the loop; it stops at the first iteration that throws or does not
  return.\<close>

fun groupSpecs ::
  "host \<Rightarrow> string \<Rightarrow> UrlBenchmarkSpec list \<Rightarrow> grouping \<Rightarrow> (error + grouping) option" where
  "groupSpecs h benchmarkRoot [] g = Some (Inr g)"
| "groupSpecs h benchmarkRoot (s # rest) g =
     (case groupSpec h benchmarkRoot s g of
        None \<Rightarrow> None
      | Some (Inl e) \<Rightarrow> Some (Inl e)
      | Some (Inr g') \<Rightarrow> groupSpecs h benchmarkRoot rest g')"

text \<open>Lines 138 to 149: the plan of the specs whose version is the default one.\<close>

definition defaultPlans :: "string \<Rightarrow> UrlBenchmarkSpec list \<Rightarrow> ServerPlan list" where
  "defaultPlans benchmarkRoot defaultSpecs =
     (if length defaultSpecs > 0
      then [\<lparr>specs = defaultSpecs, npmInstalls = [],
             mountPoints = [\<lparr>urlPath = ''/'', diskPath = benchmarkRoot\<rparr>]\<rparr>]
      else [])"

text \<open>
  Lines 151 to 180: one plan for each entry of \<open>keySpecs\<close>. The destructuring
  \<open>[packageDir, , label] = JSON.parse(key)\<close> takes the first and the third element.
\<close>

fun installPlans ::
  "host \<Rightarrow> string \<Rightarrow> string \<Rightarrow> (string \<rightharpoonup> (string \<rightharpoonup> string))
     \<Rightarrow> (string \<times> UrlBenchmarkSpec list) list \<Rightarrow> ServerPlan list \<Rightarrow> error + ServerPlan list" where
  "installPlans h benchmarkRoot npmInstallRoot keyDeps [] plans = Inr plans"
| "installPlans h benchmarkRoot npmInstallRoot keyDeps ((key, ss) # rest) plans =
     (case JSON_parse key of
        Some [packageDir, _, lbl] \<Rightarrow>
          (case keyDeps key of
             None \<Rightarrow> Inl (InternalNoDeps key)
           | Some deps \<Rightarrow>
               (let dir = path_join h [npmInstallRoot, hashStrings h [packageDir, lbl]] in
                installPlans h benchmarkRoot npmInstallRoot keyDeps rest
                  (plans @
                   [\<lparr>specs = ss,
                     npmInstalls =
                       [\<lparr>installDir = dir,
                         packageJson = \<lparr>isPrivate = True, dependencies = deps\<rparr>\<rparr>],
                     mountPoints =
                       [\<lparr>urlPath = ''/'' @ path_relative h benchmarkRoot packageDir
                                    @ ''/node_modules'',
                         diskPath = path_join h [dir, ''node_modules'']\<rparr>,
                        \<lparr>urlPath = ''/'', diskPath = benchmarkRoot\<rparr>]\<rparr>])))
      | _ \<Rightarrow> Inl JsonError)"

definition makeServerPlans ::
  "host \<Rightarrow> string \<Rightarrow> string \<Rightarrow> UrlBenchmarkSpec list \<Rightarrow> (error + ServerPlan list) option" where
  "makeServerPlans h benchmarkRoot npmInstallRoot ss =
     (case groupSpecs h benchmarkRoot ss ([], Map.empty, []) of
        None \<Rightarrow> None
      | Some (Inl e) \<Rightarrow> Some (Inl e)
      | Some (Inr (keySpecs, keyDeps, defaultSpecs)) \<Rightarrow>
          Some (installPlans h benchmarkRoot npmInstallRoot keyDeps keySpecs
                  (defaultPlans benchmarkRoot defaultSpecs)))"

section \<open>The install materializer (\<open>prepareVersionDirectory\<close>)\<close>

text \<open>
  \<open>prepareVersionDirectory\<close> changes the world: the paths that exist, the JSON files
  written, the \<open>npm install\<close> subprocesses started (each with its working directory) and
  the lines printed. What the world decides is in \<open>os\<close>: whether \<open>ensureDir\<close> and
  \<open>writeJson\<close> fail (and with which code), and what a subprocess does to the paths and
  whether it ends in an error.
\<close>

record world =
  paths :: "string set"
  jsonFiles :: "string \<rightharpoonup> NpmPackageJson"
  subprocesses :: "string list"
  console :: "string list"

record os =
  ensureDir_fails :: "world \<Rightarrow> string \<Rightarrow> string option"
  writeJson_fails :: "world \<Rightarrow> string \<Rightarrow> string option"
  npm_install_run :: "string \<Rightarrow> string set \<Rightarrow> string option \<times> string set"

definition pathExists :: "world \<Rightarrow> string \<Rightarrow> bool" where
  "pathExists w p = (p \<in> paths w)"

definition consoleLog :: "string \<Rightarrow> world \<Rightarrow> world" where
  "consoleLog line w = w\<lparr>console := console w @ [line]\<rparr>"

definition ensureDir :: "os \<Rightarrow> string \<Rightarrow> world \<Rightarrow> (error + unit) \<times> world" where
  "ensureDir env dir w =
     (case ensureDir_fails env w dir of
        Some code \<Rightarrow> (Inl (SystemError code), w)
      | None \<Rightarrow> (Inr (), w\<lparr>paths := insert dir (paths w)\<rparr>))"

definition writeJson :: "os \<Rightarrow> string \<Rightarrow> NpmPackageJson \<Rightarrow> world \<Rightarrow> (error + unit) \<times> world" where
  "writeJson env file content w =
     (case writeJson_fails env w file of
        Some code \<Rightarrow> (Inl (SystemError code), w)
      | None \<Rightarrow>
          (Inr (), w\<lparr>paths := insert file (paths w), jsonFiles := (jsonFiles w)(file \<mapsto> content)\<rparr>))"

text \<open>Lines 226 to 236: \<open>execFile('npm', ['install'], {cwd}, ...)\<close>, rejected with the
  subprocess's error when there is one.\<close>

definition npmInstall :: "os \<Rightarrow> string \<Rightarrow> world \<Rightarrow> (error + unit) \<times> world" where
  "npmInstall env cwd w =
     (let (failure, ps) = npm_install_run env cwd (paths w);
          w' = w\<lparr>paths := ps, subprocesses := subprocesses w @ [cwd]\<rparr>
      in case failure of Some message \<Rightarrow> (Inl (ProcessError message), w')
         | None \<Rightarrow> (Inr (), w'))"

definition prepareVersionDirectory ::
  "os \<Rightarrow> host \<Rightarrow> NpmInstall \<Rightarrow> world \<Rightarrow> (error + unit) \<times> world" where
  "prepareVersionDirectory env h install w =
     (if pathExists w (installDir install) then (Inr (), w)
      else
        (let w1 = consoleLog (CHR 0x0A # ''Installing '' @ installDir install @ '' ...'') w in
         case ensureDir env (installDir install) w1 of
           (Inl e, w2) \<Rightarrow> (Inl e, w2)
         | (Inr _, w2) \<Rightarrow>
             (case writeJson env (path_join h [installDir install, ''package.json''])
                     (packageJson install) w2 of
                (Inl e, w3) \<Rightarrow> (Inl e, w3)
              | (Inr _, w3) \<Rightarrow> npmInstall env (installDir install) w3)))"

section \<open>From the expander to the grouper\<close>

text \<open>
  An object pushed by \<open>specsFromOpts\<close>, as \<open>makeServerPlans\<close> reads it when it is handed
  the array. The object literal has the properties \<open>name\<close>, \<open>implementation\<close>,
  \<open>version\<close>, \<open>variant\<close> and \<open>config\<close>; it has no property \<open>url\<close>, and the
  properties \<open>makeServerPlans\<close> does not read are left out.
\<close>

definition handOver :: "BenchmarkSpec \<Rightarrow> UrlBenchmarkSpec" where
  "handOver s = \<lparr>spec_name = name s, url = None\<rparr>"

section \<open>The order of the expander's output\<close>

text \<open>
  The key of a spec is (name, variant, implementation, version.label). \<open>lexLe cmp\<close> is
  the lexicographic order on tuples of strings, the strings compared by \<open>cmp\<close>
  (negative: less); \<open>keyLe cmp a b\<close> says that the key of \<open>a\<close> is at most the key of
  \<open>b\<close> in it.
\<close>

definition specKey :: "BenchmarkSpec \<Rightarrow> string list" where
  "specKey s = [name s, variant s, implementation s, label (version s)]"

fun lexLe :: "(string \<Rightarrow> string \<Rightarrow> int) \<Rightarrow> string list \<Rightarrow> string list \<Rightarrow> bool" where
  "lexLe cmp [] ys = True"
| "lexLe cmp (x # xs) [] = False"
| "lexLe cmp (x # xs) (y # ys) = (cmp x y < 0 \<or> (x = y \<and> lexLe cmp xs ys))"

definition keyLe :: "(string \<Rightarrow> string \<Rightarrow> int) \<Rightarrow> BenchmarkSpec \<Rightarrow> BenchmarkSpec \<Rightarrow> bool" where
  "keyLe cmp a b = lexLe cmp (specKey a) (specKey b)"

text \<open>The strings that occur in the keys of a list of specs.\<close>

definition keyStrings :: "BenchmarkSpec list \<Rightarrow> string set" where
  "keyStrings ss = (\<Union>s \<in> set ss. set (specKey s))"

text \<open>
  A comparison of strings is a strict total order on a set of strings: distinct strings
  never compare equal, the sign flips with the arguments, and less is transitive.
\<close>

definition strictOrderOn :: "string set \<Rightarrow> (string \<Rightarrow> string \<Rightarrow> int) \<Rightarrow> bool" where
  "strictOrderOn S cmp =
     ((\<forall>a \<in> S. \<forall>b \<in> S. a \<noteq> b \<longrightarrow> cmp a b \<noteq> 0)
      \<and> (\<forall>a \<in> S. \<forall>b \<in> S. (cmp a b < 0) = (0 < cmp b a))
      \<and> (\<forall>a \<in> S. \<forall>b \<in> S. \<forall>c \<in> S. cmp a b < 0 \<and> cmp b c < 0 \<longrightarrow> cmp a c < 0))"

text \<open>
  What \<open>sort\<close> needs of a comparison function on the elements it is given: any two of
  them compare one way or the other, and not-greater is transitive.
\<close>

definition consistentOn :: "'a set \<Rightarrow> ('a \<Rightarrow> 'a \<Rightarrow> int) \<Rightarrow> bool" where
  "consistentOn A cmp =
     ((\<forall>a \<in> A. \<forall>b \<in> A. cmp a b \<le> 0 \<or> cmp b a \<le> 0)
      \<and> (\<forall>a \<in> A. \<forall>b \<in> A. \<forall>c \<in> A. cmp a b \<le> 0 \<and> cmp b c \<le> 0 \<longrightarrow> cmp a c \<le> 0))"



section \<open>Orders on strings and example inputs\<close>

text \<open>Ordinal comparison: code unit by code unit, a proper prefix first.\<close>

fun ordinalCompare :: "string \<Rightarrow> string \<Rightarrow> int" where
  "ordinalCompare [] [] = 0"
| "ordinalCompare [] (b # bs) = - 1"
| "ordinalCompare (a # as) [] = 1"
| "ordinalCompare (a # as) (b # bs) =
     (if (of_char a :: nat) < of_char b then - 1
      else if (of_char b :: nat) < of_char a then 1
      else ordinalCompare as bs)"

text \<open>
  A small host for the examples: paths are joined with a slash and not normalised, the
  parent of a path drops its last segment, the digest is the text itself, strings
  compare by code unit. Its disk holds
  \<^verbatim>\<open>/r/benchmarks/foo/package.json\<close> (depending on \<open>lib\<close> at \<open>1.0.0\<close>),
  \<^verbatim>\<open>/r/benchmarks/foo/bar/benchmarks.json\<close> (variants \<open>v1\<close> and \<open>v2\<close>),
  and the directories \<^verbatim>\<open>/r/benchmarks/foo/zed\<close> and \<^verbatim>\<open>/r/benchmarks/baz/bar\<close>.
\<close>

definition parentOf :: "string \<Rightarrow> string" where
  "parentOf p =
     (let d = rev (tl (dropWhile (\<lambda>c. c \<noteq> CHR ''/'') (rev p)))
      in if d = [] then ''/'' else d)"

definition demoDirs :: "string list" where
  "demoDirs =
     [''/r'', ''/r/benchmarks'', ''/r/benchmarks/foo'', ''/r/benchmarks/baz'',
      ''/r/benchmarks/foo/bar'', ''/r/benchmarks/foo/zed'', ''/r/benchmarks/baz/bar'']"

definition demoFiles :: "string list" where
  "demoFiles = [''/r/benchmarks/foo/package.json'', ''/r/benchmarks/foo/bar/benchmarks.json'']"

definition demoConfig :: ConfigFormat where
  "demoConfig =
     \<lparr>variants = Some [\<lparr>variant_name = Some ''v1'', variant_config = None\<rparr>,
                       \<lparr>variant_name = Some ''v2'',
                        variant_config = Some [''size'' \<mapsto> ''10'']\<rparr>]\<rparr>"

definition demoHost :: host where
  "demoHost =
     \<lparr>path_join = joinWith ''/'',
      path_dirname = parentOf,
      path_resolve = (\<lambda>ps. if last ps = ''..'' then parentOf (hd ps) else hd ps),
      path_relative = (\<lambda>from to. drop (Suc (length from)) to),
      sha256_hex = (\<lambda>text. text),
      localeCompare = ordinalCompare,
      fs_readdir =
        (\<lambda>p. if p = ''/r/benchmarks'' then Inr [''foo'', ''baz'', ''common'']
             else if p = ''/r/benchmarks/foo'' then Inr [''bar'', ''zed'', ''package.json'']
             else if p = ''/r/benchmarks/baz'' then Inr [''bar'']
             else Inl ''ENOENT''),
      fs_pathExists = (\<lambda>p. p \<in> set demoDirs \<or> p \<in> set demoFiles),
      fs_stat =
        (\<lambda>p. if p \<in> set demoDirs then Inr \<lparr>isDirectory = True, isFile = False\<rparr>
             else if p \<in> set demoFiles then Inr \<lparr>isDirectory = False, isFile = True\<rparr>
             else Inl ''ENOENT''),
      fs_readConfig =
        (\<lambda>p. if p = ''/r/benchmarks/foo/bar/benchmarks.json'' then Inr (Some demoConfig)
             else Inl ''ENOENT''),
      fs_readManifest =
        (\<lambda>p. if p = ''/r/benchmarks/foo/package.json''
             then Inr (Some \<lparr>manifest_dependencies = Some [''lib'' \<mapsto> ''1.0.0'']\<rparr>)
             else Inl ''ENOENT'')\<rparr>"

text \<open>An operating system on which nothing fails and \<open>npm install\<close> adds
  \<open>node_modules\<close> to its working directory.\<close>

definition quietOs :: os where
  "quietOs =
     \<lparr>ensureDir_fails = (\<lambda>w dir. None),
      writeJson_fails = (\<lambda>w file. None),
      npm_install_run = (\<lambda>cwd ps. (None, insert (cwd @ ''/node_modules'') ps))\<rparr>"

definition demoInstall :: NpmInstall where
  "demoInstall =
     \<lparr>installDir = ''/i/abc'',
      packageJson = \<lparr>isPrivate = True, dependencies = [''lib'' \<mapsto> ''2.0.0'']\<rparr>\<rparr>"

definition emptyWorld :: world where
  "emptyWorld = \<lparr>paths = {}, jsonFiles = Map.empty, subprocesses = [], console = []\<rparr>"

definition installedWorld :: world where
  "installedWorld =
     \<lparr>paths = {''/i/abc''}, jsonFiles = Map.empty, subprocesses = [], console = []\<rparr>"

text \<open>A spec of the implementation \<open>foo\<close> with a version that overrides \<open>lib\<close>.\<close>

definition demoLocalSpec :: "string \<Rightarrow> string \<Rightarrow> UrlBenchmarkSpec" where
  "demoLocalSpec nm lbl =
     \<lparr>spec_name = nm,
      url = Some (LocalUrl ''foo''
                    \<lparr>label = lbl, dependencyOverrides = [''lib'' \<mapsto> ''2.0.0'']\<rparr>)\<rparr>"

definition demoOpts :: Opts where
  "demoOpts =
     \<lparr>opt_name = ''bar'', opt_implementation = ''foo'', opt_variant = ''*'',
      opt_package_version = []\<rparr>"

text \<open>
  A comparison in the manner of a locale's collation on letters: strings compare by their
  letters regardless of case, and case decides only between strings that differ in
  nothing else, lower case first.
\<close>

definition lowerCase :: "char \<Rightarrow> char" where
  "lowerCase c =
     (if 65 \<le> (of_char c :: nat) \<and> (of_char c :: nat) \<le> 90
      then char_of ((of_char c :: nat) + 32) else c)"

definition alphabeticCompare :: "string \<Rightarrow> string \<Rightarrow> int" where
  "alphabeticCompare a b =
     (if ordinalCompare (map lowerCase a) (map lowerCase b) \<noteq> 0
      then ordinalCompare (map lowerCase a) (map lowerCase b)
      else ordinalCompare b a)"

text \<open>A host whose disk holds the benchmarks \<open>B\<close> and \<open>a\<close> of one implementation
  \<open>x\<close>, without configuration files, and whose strings compare alphabetically.\<close>

definition letterHost :: host where
  "letterHost =
     demoHost
       \<lparr>localeCompare := alphabeticCompare,
        fs_readdir :=
          (\<lambda>p. if p = ''/r/benchmarks'' then Inr [''x'']
               else if p = ''/r/benchmarks/x'' then Inr [''B'', ''a'']
               else Inl ''ENOENT''),
        fs_pathExists := (\<lambda>p. True),
        fs_readConfig := (\<lambda>p. Inl ''ENOENT'')\<rparr>"

definition wildcardOpts :: Opts where
  "wildcardOpts =
     \<lparr>opt_name = ''*'', opt_implementation = ''*'', opt_variant = ''*'',
      opt_package_version = []\<rparr>"



section \<open>Evaluating the example host\<close>

lemma demoHost_fields:
  "path_join demoHost = joinWith ''/''"
  "path_dirname demoHost = parentOf"
  "path_resolve demoHost = (\<lambda>ps. if last ps = ''..'' then parentOf (hd ps) else hd ps)"
  "path_relative demoHost = (\<lambda>from to. drop (Suc (length from)) to)"
  "sha256_hex demoHost = (\<lambda>text. text)"
  "localeCompare demoHost = ordinalCompare"
  "fs_pathExists demoHost = (\<lambda>p. p \<in> set demoDirs \<or> p \<in> set demoFiles)"
  by (simp_all add: demoHost_def)

lemma demoHost_disk:
  "fs_readdir demoHost ''/r/benchmarks'' = Inr [''foo'', ''baz'', ''common'']"
  "fs_readdir demoHost ''/r/benchmarks/foo'' = Inr [''bar'', ''zed'', ''package.json'']"
  "fs_readdir demoHost ''/r/benchmarks/baz'' = Inr [''bar'']"
  "fs_stat demoHost ''/r/benchmarks/foo/bar'' = Inr \<lparr>isDirectory = True, isFile = False\<rparr>"
  "fs_stat demoHost ''/r/benchmarks/foo/zed'' = Inr \<lparr>isDirectory = True, isFile = False\<rparr>"
  "fs_readConfig demoHost ''/r/benchmarks/foo/bar/benchmarks.json'' = Inr (Some demoConfig)"
  "fs_readConfig demoHost ''/r/benchmarks/foo/zed/benchmarks.json'' = Inl ''ENOENT''"
  "fs_readConfig demoHost ''/r/benchmarks/baz/bar/benchmarks.json'' = Inl ''ENOENT''"
  "fs_readManifest demoHost ''/r/benchmarks/foo/package.json''
     = Inr (Some \<lparr>manifest_dependencies = Some [''lib'' \<mapsto> ''1.0.0'']\<rparr>)"
  by (simp_all add: demoHost_def demoDirs_def demoFiles_def)

lemma findPackageJsonPath_demo:
  "findPackageJsonPath demoHost ''/r/benchmarks/foo/bar''
     = Some (Some ''/r/benchmarks/foo/package.json'')"
  "findPackageJsonPath demoHost ''/r/benchmarks/foo/zed''
     = Some (Some ''/r/benchmarks/foo/package.json'')"
  unfolding findPackageJsonPath_def
  by (subst findPackageJsonLoop.simps,
      simp add: demoHost_fields demoDirs_def demoFiles_def parentOf_def,
      subst findPackageJsonLoop.simps,
      simp add: demoHost_fields demoDirs_def demoFiles_def parentOf_def)+

lemmas expander_defs =
  specsFromOpts_def parsePackageVersions_def listImplementations_def split_def ignoreFiles_def
  requestedVariants_def trim_def whiteSpace_def listBenchmarks_def loadConfig_def
  benchmarkSpecs_def implVersionsOf_def declaredVariants_def variantSelected_def
  variantSpecs_def plainSpecs_def sortBy_def compareSpecs_def defaultVersion_def

lemma specsFromOpts_demo:
  "specsFromOpts demoHost ''/r'' demoOpts =
     Inr [\<lparr>name = ''bar'', implementation = ''foo'', version = defaultVersion,
            variant = ''v1'', config = Map.empty\<rparr>,
          \<lparr>name = ''bar'', implementation = ''foo'', version = defaultVersion,
            variant = ''v2'', config = [''size'' \<mapsto> ''10'']\<rparr>]"
  by (simp add: expander_defs demoOpts_def demoConfig_def demoHost_fields demoHost_disk
      demoDirs_def demoFiles_def)

lemma locateManifest_demo:
  "locateManifest demoHost ''/r/benchmarks'' ''foo'' ''bar''
     = Some (Inr (''/r/benchmarks/foo/package.json'',
                  \<lparr>manifest_dependencies = Some [''lib'' \<mapsto> ''1.0.0'']\<rparr>))"
  "locateManifest demoHost ''/r/benchmarks'' ''foo'' ''zed''
     = Some (Inr (''/r/benchmarks/foo/package.json'',
                  \<lparr>manifest_dependencies = Some [''lib'' \<mapsto> ''1.0.0'']\<rparr>))"
  by (simp_all add: locateManifest_def fileKind_def findPackageJsonPath_demo demoHost_fields
      demoHost_disk Let_def)

lemma groupSpecs_demo:
  "groupSpecs demoHost ''/r/benchmarks'' [demoLocalSpec ''bar'' ''l1''] ([], Map.empty, []) =
     Some (Inr ([(JSON_stringify [''/r/benchmarks/foo'', ''foo'', ''l1''],
                  [demoLocalSpec ''bar'' ''l1''])],
                [JSON_stringify [''/r/benchmarks/foo'', ''foo'', ''l1'']
                   \<mapsto> [''lib'' \<mapsto> ''2.0.0'']],
                []))"
  by (simp add: groupSpec_def demoLocalSpec_def locateManifest_demo demoHost_fields
      parentOf_def Let_def)

section \<open>The install materializer: the fast path and repeated calls\<close>

lemma prepareVersionDirectory_existing:
  "pathExists w (installDir install) \<Longrightarrow> prepareVersionDirectory env h install w = (Inr (), w)"
  by (simp add: prepareVersionDirectory_def)

lemma prepareVersionDirectory_subprocesses:
  "\<exists>extra. subprocesses (snd (prepareVersionDirectory env h install w)) = subprocesses w @ extra
     \<and> length extra \<le> 1"
  by (auto simp: prepareVersionDirectory_def ensureDir_def writeJson_def npmInstall_def
      consoleLog_def Let_def split: option.splits prod.splits sum.splits)

lemma npmInstall_keeps:
  assumes "\<forall>ps. dir \<in> ps \<longrightarrow> dir \<in> snd (npm_install_run env dir ps)"
    and "dir \<in> paths w"
  shows "dir \<in> paths (snd (npmInstall env dir w))"
proof -
  from assms have "dir \<in> snd (npm_install_run env dir (paths w))" by blast
  then show ?thesis
    by (cases "npm_install_run env dir (paths w)")
       (auto simp: npmInstall_def Let_def split: option.splits)
qed

text \<open>Whenever a call has started the subprocess, it had created the directory before,
  and the directory is still there unless the subprocess removed it.\<close>

lemma prepareVersionDirectory_creates:
  assumes keep: "\<forall>ps. installDir install \<in> ps \<longrightarrow>
            installDir install \<in> snd (npm_install_run env (installDir install) ps)"
    and ran: "subprocesses (snd (prepareVersionDirectory env h install w)) \<noteq> subprocesses w"
  shows "pathExists (snd (prepareVersionDirectory env h install w)) (installDir install)"
proof -
  let ?d = "installDir install"
  let ?w1 = "consoleLog (CHR 0x0A # ''Installing '' @ ?d @ '' ...'') w"
  from ran have absent: "\<not> pathExists w ?d"
    by (auto simp: prepareVersionDirectory_def)
  from ran absent obtain w2 where e: "ensureDir env ?d ?w1 = (Inr (), w2)"
    by (cases "ensureDir env ?d ?w1")
       (auto simp: prepareVersionDirectory_def ensureDir_def consoleLog_def Let_def
             split: option.splits sum.splits)
  then have in2: "?d \<in> paths w2"
    by (auto simp: ensureDir_def split: option.splits)
  let ?f = "path_join h [?d, ''package.json'']"
  from ran absent e obtain w3 where j: "writeJson env ?f (packageJson install) w2 = (Inr (), w3)"
    by (cases "writeJson env ?f (packageJson install) w2")
       (auto simp: prepareVersionDirectory_def writeJson_def ensureDir_def consoleLog_def Let_def
             split: option.splits sum.splits)
  with in2 have in3: "?d \<in> paths w3"
    by (auto simp: writeJson_def split: option.splits)
  from absent e j have "prepareVersionDirectory env h install w = npmInstall env ?d w3"
    by (simp add: prepareVersionDirectory_def Let_def)
  with npmInstall_keeps [OF keep in3] show ?thesis
    by (simp add: pathExists_def)
qed

lemma prepareVersionDirectory_second_call:
  assumes "pathExists (snd (prepareVersionDirectory env h install w)) (installDir install)"
  shows "\<exists>extra. subprocesses (snd (prepareVersionDirectory env h install
                     (snd (prepareVersionDirectory env h install w)))) = subprocesses w @ extra
           \<and> length extra \<le> 1"
  using prepareVersionDirectory_existing [OF assms]
    prepareVersionDirectory_subprocesses [of env h install w]
  by simp

lemma prepareVersionDirectory_twice:
  assumes keep: "\<forall>ps. installDir install \<in> ps \<longrightarrow>
            installDir install \<in> snd (npm_install_run env (installDir install) ps)"
  shows "\<exists>extra. subprocesses (snd (prepareVersionDirectory env h install
                     (snd (prepareVersionDirectory env h install w)))) = subprocesses w @ extra
           \<and> length extra \<le> 1"
proof (cases "subprocesses (snd (prepareVersionDirectory env h install w)) = subprocesses w")
  case True
  with prepareVersionDirectory_subprocesses
         [of env h install "snd (prepareVersionDirectory env h install w)"]
  show ?thesis by simp
next
  case False
  from prepareVersionDirectory_creates [OF keep False]
  show ?thesis by (rule prepareVersionDirectory_second_call)
qed

text \<open>
  Claim C9. When the install directory exists, \<open>prepareVersionDirectory\<close> returns at once
  and the world is the one it was given: no line printed, no directory or file created, no
  subprocess started. Two calls in succession with the same install start the
  \<open>npm install\<close> subprocess at most once, whenever the directory exists at the second
  call; it does, if the first call started the subprocess and the subprocess did not
  remove its own working directory.
\<close>

theorem prepareVersionDirectory_fast_path_and_single_install:
  "(pathExists w (installDir install) \<longrightarrow>
      prepareVersionDirectory env h install w = (Inr (), w))
   \<and> ((pathExists (snd (prepareVersionDirectory env h install w)) (installDir install)
        \<or> (\<forall>ps. installDir install \<in> ps \<longrightarrow>
              installDir install \<in> snd (npm_install_run env (installDir install) ps)))
       \<longrightarrow> (\<exists>extra. subprocesses
                      (snd (prepareVersionDirectory env h install
                              (snd (prepareVersionDirectory env h install w))))
                    = subprocesses w @ extra
                  \<and> length extra \<le> 1))"
  using prepareVersionDirectory_existing [of w install env h]
    prepareVersionDirectory_second_call [of env h install w]
    prepareVersionDirectory_twice [of install env h w]
  by blast

theorem prepareVersionDirectory_fast_path_and_single_install_witness:
  "pathExists installedWorld (installDir demoInstall)
   \<and> prepareVersionDirectory quietOs demoHost demoInstall installedWorld = (Inr (), installedWorld)
   \<and> \<not> pathExists emptyWorld (installDir demoInstall)
   \<and> (\<exists>extra. subprocesses
                 (snd (prepareVersionDirectory quietOs demoHost demoInstall
                         (snd (prepareVersionDirectory quietOs demoHost demoInstall emptyWorld))))
               = subprocesses emptyWorld @ extra
             \<and> length extra \<le> 1)
   \<and> subprocesses
        (snd (prepareVersionDirectory quietOs demoHost demoInstall
                (snd (prepareVersionDirectory quietOs demoHost demoInstall emptyWorld))))
      = [''/i/abc'']"
proof -
  have exists: "pathExists installedWorld (installDir demoInstall)"
    by (simp add: pathExists_def installedWorld_def demoInstall_def)
  have keep: "\<forall>ps. installDir demoInstall \<in> ps \<longrightarrow>
          installDir demoInstall \<in> snd (npm_install_run quietOs (installDir demoInstall) ps)"
    by (simp add: quietOs_def)
  have absent: "\<not> pathExists emptyWorld (installDir demoInstall)"
    by (simp add: pathExists_def emptyWorld_def)
  have ran: "subprocesses
        (snd (prepareVersionDirectory quietOs demoHost demoInstall
                (snd (prepareVersionDirectory quietOs demoHost demoInstall emptyWorld))))
      = [''/i/abc'']"
    by (simp add: prepareVersionDirectory_def pathExists_def emptyWorld_def demoInstall_def
        quietOs_def consoleLog_def ensureDir_def writeJson_def npmInstall_def Let_def)
  from exists keep absent ran
    prepareVersionDirectory_fast_path_and_single_install
      [of installedWorld demoInstall quietOs demoHost]
    prepareVersionDirectory_fast_path_and_single_install
      [of emptyWorld demoInstall quietOs demoHost]
  show ?thesis by blast
qed

section \<open>The plan grouper: every key that has specs has dependencies\<close>

lemma pushSpec_keys: "fst ` set (pushSpec ks key s) = insert key (fst ` set ks)"
  by (induction ks key s rule: pushSpec.induct) auto

text \<open>The invariant of the loop over the specs: one iteration writes both maps under the
  same key.\<close>

lemma groupSpec_result:
  assumes "groupSpec h root s (ks, kd, ds) = Some (Inr (ks', kd', ds'))"
  shows "(ks' = ks \<and> kd' = kd) \<or> (\<exists>key deps. ks' = pushSpec ks key s \<and> kd' = kd(key \<mapsto> deps))"
  using assms
  by (auto simp: groupSpec_def Let_def split: option.splits Url.splits sum.splits if_splits)

lemma groupSpec_keys_have_deps:
  assumes "groupSpec h root s (ks, kd, ds) = Some (Inr (ks', kd', ds'))"
    and "fst ` set ks \<subseteq> dom kd"
  shows "fst ` set ks' \<subseteq> dom kd'"
proof -
  from groupSpec_result [OF assms(1)]
  consider "ks' = ks \<and> kd' = kd"
    | key deps where "ks' = pushSpec ks key s" "kd' = kd(key \<mapsto> deps)"
    by blast
  then show ?thesis
  proof cases
    case 1
    with assms(2) show ?thesis by simp
  next
    case 2
    with assms(2) show ?thesis
      by (simp add: pushSpec_keys subset_insertI2)
  qed
qed

lemma groupSpec_no_internal_error:
  "groupSpec h root s g \<noteq> Some (Inl (InternalNoDeps k))"
  by (cases g)
     (auto simp: groupSpec_def locateManifest_def Let_def fileKind_def
      split: option.splits Url.splits sum.splits if_splits)

lemma groupSpecs_keys_have_deps:
  "groupSpecs h root ss (ks, kd, ds) = Some (Inr (ks', kd', ds')) \<Longrightarrow> fst ` set ks \<subseteq> dom kd
     \<Longrightarrow> fst ` set ks' \<subseteq> dom kd'"
proof (induction ss arbitrary: ks kd ds)
  case Nil
  then show ?case by simp
next
  case (Cons s ss)
  from Cons.prems(1) obtain ks1 kd1 ds1 where
    step: "groupSpec h root s (ks, kd, ds) = Some (Inr (ks1, kd1, ds1))" and
    rest: "groupSpecs h root ss (ks1, kd1, ds1) = Some (Inr (ks', kd', ds'))"
    by (auto split: option.splits sum.splits)
  from groupSpec_keys_have_deps [OF step Cons.prems(2)] Cons.IH [OF rest]
  show ?case by blast
qed

lemma groupSpecs_no_internal_error:
  "groupSpecs h root ss g \<noteq> Some (Inl (InternalNoDeps k))"
proof (induction ss arbitrary: g)
  case Nil
  show ?case by simp
next
  case (Cons s ss)
  with groupSpec_no_internal_error [of h root s g k] show ?case
    by (auto split: option.splits sum.splits)
qed

lemma installPlans_no_internal_error:
  "fst ` set ks \<subseteq> dom kd \<Longrightarrow> installPlans h b n kd ks plans \<noteq> Inl (InternalNoDeps k)"
proof (induction ks arbitrary: plans)
  case Nil
  then show ?case by simp
next
  case (Cons entry ks)
  obtain key ss where entry: "entry = (key, ss)" by (cases entry)
  from Cons.prems entry obtain deps where deps: "kd key = Some deps" by auto
  from Cons.prems have "fst ` set ks \<subseteq> dom kd" by auto
  from Cons.IH [OF this] entry deps show ?case
    by (auto simp: Let_def split: option.splits list.splits)
qed

text \<open>
  Claim C10. For every host (hence every disk) and every list of specs: when the loop over
  the specs completes, every key of \<open>keySpecs\<close> is a key of \<open>keyDeps\<close>; so
  \<open>makeServerPlans\<close> never throws the internal error of line 155, whatever else it does.
\<close>

theorem makeServerPlans_internal_error_unreachable:
  "(\<forall>keySpecs keyDeps defaultSpecs.
      groupSpecs h benchmarkRoot ss ([], Map.empty, []) = Some (Inr (keySpecs, keyDeps, defaultSpecs))
      \<longrightarrow> fst ` set keySpecs \<subseteq> dom keyDeps)
   \<and> (\<forall>key. makeServerPlans h benchmarkRoot npmInstallRoot ss \<noteq> Some (Inl (InternalNoDeps key)))"
proof (intro conjI allI impI)
  fix keySpecs keyDeps defaultSpecs
  assume "groupSpecs h benchmarkRoot ss ([], Map.empty, [])
            = Some (Inr (keySpecs, keyDeps, defaultSpecs))"
  from groupSpecs_keys_have_deps [OF this] show "fst ` set keySpecs \<subseteq> dom keyDeps" by simp
next
  fix key
  show "makeServerPlans h benchmarkRoot npmInstallRoot ss \<noteq> Some (Inl (InternalNoDeps key))"
  proof (cases "groupSpecs h benchmarkRoot ss ([], Map.empty, [])")
    case None
    then show ?thesis by (simp add: makeServerPlans_def)
  next
    case (Some r)
    show ?thesis
    proof (cases r)
      case (Inl e)
      with Some groupSpecs_no_internal_error [of h benchmarkRoot ss "([], Map.empty, [])" key]
      show ?thesis by (auto simp: makeServerPlans_def)
    next
      case (Inr g)
      obtain ks kd ds where g: "g = (ks, kd, ds)" by (cases g)
      from Some Inr g have "fst ` set ks \<subseteq> dom kd"
        using groupSpecs_keys_have_deps [of h benchmarkRoot ss "[]" Map.empty "[]" ks kd ds]
        by simp
      from installPlans_no_internal_error [OF this] Some Inr g show ?thesis
        by (simp add: makeServerPlans_def)
    qed
  qed
qed

theorem makeServerPlans_internal_error_unreachable_witness:
  "(\<exists>keySpecs keyDeps defaultSpecs.
      groupSpecs demoHost ''/r/benchmarks'' [demoLocalSpec ''bar'' ''l1''] ([], Map.empty, [])
        = Some (Inr (keySpecs, keyDeps, defaultSpecs))
      \<and> keySpecs \<noteq> [] \<and> fst ` set keySpecs \<subseteq> dom keyDeps)
   \<and> makeServerPlans demoHost ''/r/benchmarks'' ''/i'' [demoLocalSpec ''bar'' ''l1'']
       \<noteq> Some (Inl (InternalNoDeps (JSON_stringify [''/r/benchmarks/foo'', ''foo'', ''l1''])))"
proof -
  let ?key = "JSON_stringify [''/r/benchmarks/foo'', ''foo'', ''l1'']"
  note run = groupSpecs_demo
  note inv = makeServerPlans_internal_error_unreachable
      [of demoHost "''/r/benchmarks''" "[demoLocalSpec ''bar'' ''l1'']" "''/i''"]
  from inv run have "fst ` set [(?key, [demoLocalSpec ''bar'' ''l1''])]
      \<subseteq> dom [?key \<mapsto> [''lib'' \<mapsto> ''2.0.0'']]"
    by blast
  with run have "\<exists>keySpecs keyDeps defaultSpecs.
      groupSpecs demoHost ''/r/benchmarks'' [demoLocalSpec ''bar'' ''l1''] ([], Map.empty, [])
        = Some (Inr (keySpecs, keyDeps, defaultSpecs))
      \<and> keySpecs \<noteq> [] \<and> fst ` set keySpecs \<subseteq> dom keyDeps"
    by (intro exI [of _ "[(?key, [demoLocalSpec ''bar'' ''l1''])]"]
              exI [of _ "[?key \<mapsto> [''lib'' \<mapsto> ''2.0.0'']]"] exI [of _ "[]"]) simp
  with inv show ?thesis by blast
qed

section \<open>Handing the expander's specs to the grouper\<close>

lemma groupSpecs_without_url:
  "url s = None \<Longrightarrow> groupSpecs h root (s # ss) g = Some (Inl TypeError)"
  by (cases g) (simp add: groupSpec_def)

text \<open>
  Claim C1, as the code has it. \<open>makeServerPlans\<close> reads \<open>spec.name\<close> and, under
  \<open>spec.url\<close>, the kind, the implementation, the version label and the dependency
  overrides. The specs \<open>specsFromOpts\<close> emits carry name, implementation, version,
  variant and config, and no \<open>url\<close>. So \<open>makeServerPlans\<close> on an output of
  \<open>specsFromOpts\<close> returns no plan when that output is empty, and otherwise fails on the
  first spec with the \<open>TypeError\<close> of reading \<open>kind\<close> of \<open>undefined\<close>.
\<close>

theorem makeServerPlans_on_specsFromOpts_output:
  "specsFromOpts h repoRoot opts = Inr ss \<Longrightarrow>
     makeServerPlans h' benchmarkRoot npmInstallRoot (map handOver ss)
       = Some (if ss = [] then Inr [] else Inl TypeError)"
  by (cases ss) (simp_all add: makeServerPlans_def defaultPlans_def handOver_def groupSpec_def)

theorem makeServerPlans_on_specsFromOpts_output_witness:
  "\<exists>s ss. specsFromOpts demoHost ''/r'' demoOpts = Inr (s # ss)
     \<and> makeServerPlans demoHost ''/r/benchmarks'' ''/i'' (map handOver (s # ss))
         = Some (Inl TypeError)"
  using specsFromOpts_demo
    makeServerPlans_on_specsFromOpts_output
      [of demoHost "''/r''" demoOpts _ demoHost "''/r/benchmarks''" "''/i''"]
  by fastforce

text \<open>The claim as stated fails on the example disk: the expander emits two specs, and
  the grouper fails on the first of them.\<close>

theorem specsFromOpts_output_not_consumable_counterexample:
  "specsFromOpts demoHost ''/r'' demoOpts =
     Inr [\<lparr>name = ''bar'', implementation = ''foo'', version = defaultVersion,
            variant = ''v1'', config = Map.empty\<rparr>,
          \<lparr>name = ''bar'', implementation = ''foo'', version = defaultVersion,
            variant = ''v2'', config = [''size'' \<mapsto> ''10'']\<rparr>]
   \<and> makeServerPlans demoHost ''/r/benchmarks'' ''/i''
        (map handOver
           [\<lparr>name = ''bar'', implementation = ''foo'', version = defaultVersion,
              variant = ''v1'', config = Map.empty\<rparr>,
            \<lparr>name = ''bar'', implementation = ''foo'', version = defaultVersion,
              variant = ''v2'', config = [''size'' \<mapsto> ''10'']\<rparr>])
      = Some (Inl TypeError)"
  using specsFromOpts_demo by (simp add: makeServerPlans_def handOver_def groupSpec_def)

section \<open>Sorting with a comparison function\<close>

lemma set_insertBy: "set (insertBy cmp x ys) = insert x (set ys)"
  by (induction ys) auto

lemma set_sortBy: "set (sortBy cmp xs) = set xs"
  by (induction xs) (simp_all add: sortBy_def set_insertBy)

lemma length_insertBy: "length (insertBy cmp x ys) = Suc (length ys)"
  by (induction ys) auto

lemma length_sortBy: "length (sortBy cmp xs) = length xs"
  by (induction xs) (simp_all add: sortBy_def length_insertBy)

lemma consistentOn_total:
  "consistentOn A cmp \<Longrightarrow> a \<in> A \<Longrightarrow> b \<in> A \<Longrightarrow> cmp a b \<le> 0 \<or> cmp b a \<le> 0"
  unfolding consistentOn_def by blast

lemma consistentOn_trans:
  "consistentOn A cmp \<Longrightarrow> a \<in> A \<Longrightarrow> b \<in> A \<Longrightarrow> c \<in> A \<Longrightarrow> cmp a b \<le> 0 \<Longrightarrow> cmp b c \<le> 0
     \<Longrightarrow> cmp a c \<le> 0"
  unfolding consistentOn_def by blast

lemma consistentOn_subset: "consistentOn A cmp \<Longrightarrow> B \<subseteq> A \<Longrightarrow> consistentOn B cmp"
  unfolding consistentOn_def by blast

lemma sorted_insertBy:
  "consistentOn (insert x (set ys)) cmp \<Longrightarrow> sorted_wrt (\<lambda>a b. cmp a b \<le> 0) ys
     \<Longrightarrow> sorted_wrt (\<lambda>a b. cmp a b \<le> 0) (insertBy cmp x ys)"
proof (induction ys)
  case Nil
  then show ?case by simp
next
  case (Cons y ys)
  note ok = Cons.prems(1)
  show ?case
  proof (cases "cmp x y \<le> 0")
    case True
    have "cmp x z \<le> 0" if z: "z \<in> set ys" for z
    proof -
      from z Cons.prems(2) have "cmp y z \<le> 0" by simp
      with True z show ?thesis
        using consistentOn_trans [OF ok, of x y z] by simp
    qed
    with True Cons.prems(2) show ?thesis by simp
  next
    case False
    with consistentOn_total [OF ok, of x y] have yx: "cmp y x \<le> 0" by simp
    have "consistentOn (insert x (set ys)) cmp"
      by (rule consistentOn_subset [OF ok]) auto
    with Cons.prems(2) have rest: "sorted_wrt (\<lambda>a b. cmp a b \<le> 0) (insertBy cmp x ys)"
      by (intro Cons.IH) simp_all
    from Cons.prems(2) have "\<forall>z \<in> set ys. cmp y z \<le> 0" by simp
    with False yx rest show ?thesis
      by (simp add: set_insertBy)
  qed
qed

lemma sorted_sortBy:
  "consistentOn (set xs) cmp \<Longrightarrow> sorted_wrt (\<lambda>a b. cmp a b \<le> 0) (sortBy cmp xs)"
proof (induction xs)
  case Nil
  show ?case by (simp add: sortBy_def)
next
  case (Cons x xs)
  have "consistentOn (set xs) cmp"
    by (rule consistentOn_subset [OF Cons.prems]) auto
  then have rest: "sorted_wrt (\<lambda>a b. cmp a b \<le> 0) (sortBy cmp xs)"
    by (rule Cons.IH)
  from Cons.prems have "consistentOn (insert x (set (sortBy cmp xs))) cmp"
    by (simp add: set_sortBy)
  from sorted_insertBy [OF this rest] show ?case by (simp add: sortBy_def)
qed

subsection \<open>A strict order on strings and the lexicographic order of keys\<close>

lemma strictOrderOn_irrefl: "strictOrderOn S cmp \<Longrightarrow> a \<in> S \<Longrightarrow> cmp a a = 0"
proof -
  assume "strictOrderOn S cmp" "a \<in> S"
  then have "(cmp a a < 0) = (0 < cmp a a)" unfolding strictOrderOn_def by blast
  then show "cmp a a = 0" by arith
qed

lemma strictOrderOn_flip:
  "strictOrderOn S cmp \<Longrightarrow> a \<in> S \<Longrightarrow> b \<in> S \<Longrightarrow> (cmp a b < 0) = (0 < cmp b a)"
  unfolding strictOrderOn_def by blast

lemma strictOrderOn_distinct:
  "strictOrderOn S cmp \<Longrightarrow> a \<in> S \<Longrightarrow> b \<in> S \<Longrightarrow> a \<noteq> b \<Longrightarrow> cmp a b \<noteq> 0"
  unfolding strictOrderOn_def by blast

lemma strictOrderOn_trans:
  "strictOrderOn S cmp \<Longrightarrow> a \<in> S \<Longrightarrow> b \<in> S \<Longrightarrow> c \<in> S \<Longrightarrow> cmp a b < 0 \<Longrightarrow> cmp b c < 0
     \<Longrightarrow> cmp a c < 0"
  unfolding strictOrderOn_def by blast

lemma strictOrderOn_less_neq:
  "strictOrderOn S cmp \<Longrightarrow> a \<in> S \<Longrightarrow> b \<in> S \<Longrightarrow> cmp a b < 0 \<Longrightarrow> a \<noteq> b"
  using strictOrderOn_irrefl [of S cmp a] by auto

lemma strictOrderOn_asym:
  "strictOrderOn S cmp \<Longrightarrow> a \<in> S \<Longrightarrow> b \<in> S \<Longrightarrow> cmp a b < 0 \<Longrightarrow> \<not> cmp b a < 0"
  using strictOrderOn_flip [of S cmp a b] by auto

lemma strictOrderOn_total:
  assumes "strictOrderOn S cmp" "a \<in> S" "b \<in> S" "a \<noteq> b"
  shows "cmp a b < 0 \<or> cmp b a < 0"
proof -
  from strictOrderOn_distinct [OF assms] have "cmp a b < 0 \<or> 0 < cmp a b" by arith
  with strictOrderOn_flip [OF assms(1,3,2)] show ?thesis by auto
qed

lemma strictOrderOn_subset: "strictOrderOn S cmp \<Longrightarrow> T \<subseteq> S \<Longrightarrow> strictOrderOn T cmp"
  unfolding strictOrderOn_def by blast

lemma lexLe_total:
  assumes ord: "strictOrderOn S cmp"
  shows "length xs = length ys \<Longrightarrow> set xs \<subseteq> S \<Longrightarrow> set ys \<subseteq> S
           \<Longrightarrow> lexLe cmp xs ys \<or> lexLe cmp ys xs"
proof (induction xs ys rule: list_induct2)
  case Nil
  show ?case by simp
next
  case (Cons x xs y ys)
  then have x: "x \<in> S" and y: "y \<in> S" by simp_all
  show ?case
  proof (cases "x = y")
    case True
    with Cons show ?thesis by auto
  next
    case False
    from strictOrderOn_total [OF ord x y False] show ?thesis by auto
  qed
qed

lemma lexLe_trans:
  assumes ord: "strictOrderOn S cmp"
  shows "length xs = length ys \<Longrightarrow> length ys = length zs
           \<Longrightarrow> set xs \<subseteq> S \<Longrightarrow> set ys \<subseteq> S \<Longrightarrow> set zs \<subseteq> S
           \<Longrightarrow> lexLe cmp xs ys \<Longrightarrow> lexLe cmp ys zs \<Longrightarrow> lexLe cmp xs zs"
proof (induction xs ys zs rule: list_induct3)
  case Nil
  show ?case by simp
next
  case (Cons x xs y ys z zs)
  then have x: "x \<in> S" and y: "y \<in> S" and z: "z \<in> S" by simp_all
  from Cons.prems(4) consider "cmp x y < 0" | "x = y" "lexLe cmp xs ys" by auto
  then show ?case
  proof cases
    case 1
    from Cons.prems(5) consider "cmp y z < 0" | "y = z" by auto
    then show ?thesis
    proof cases
      case 1
      with \<open>cmp x y < 0\<close> strictOrderOn_trans [OF ord x y z] show ?thesis by simp
    next
      case 2
      with \<open>cmp x y < 0\<close> show ?thesis by simp
    qed
  next
    case 2
    from Cons.prems(5) consider "cmp y z < 0" | "y = z" "lexLe cmp ys zs" by auto
    then show ?thesis
    proof cases
      case 1
      with 2 show ?thesis by simp
    next
      case 2
      with \<open>x = y\<close> \<open>lexLe cmp xs ys\<close> Cons show ?thesis by simp
    qed
  qed
qed

text \<open>On specs whose key strings are strictly ordered, the comparison function of
  \<open>specsFromOpts\<close> is the lexicographic order of the keys.\<close>

lemma compareSpecs_le_iff_keyLe:
  assumes ord: "strictOrderOn S (localeCompare h)"
    and a: "set (specKey a) \<subseteq> S" and b: "set (specKey b) \<subseteq> S"
  shows "(compareSpecs h a b \<le> 0) = keyLe (localeCompare h) a b"
proof -
  let ?lc = "localeCompare h"
  have less: "(?lc x y \<le> 0) = (?lc x y < 0)" if "x \<in> S" "y \<in> S" "x \<noteq> y" for x y
    using strictOrderOn_distinct [OF ord that] by arith
  have neq: "x \<noteq> y" if "x \<in> S" "y \<in> S" "?lc x y < 0" for x y
    using strictOrderOn_less_neq [OF ord that] .
  from a b have mem:
    "name a \<in> S" "variant a \<in> S" "implementation a \<in> S" "label (version a) \<in> S"
    "name b \<in> S" "variant b \<in> S" "implementation b \<in> S" "label (version b) \<in> S"
    by (simp_all add: specKey_def)
  show ?thesis
  proof (cases "name a = name b")
    case False
    with less [OF mem(1) mem(5)] show ?thesis
      by (simp add: compareSpecs_def keyLe_def specKey_def)
  next
    case n: True
    with neq [OF mem(1) mem(5)] have n': "\<not> ?lc (name a) (name b) < 0" by auto
    show ?thesis
    proof (cases "variant a = variant b")
      case False
      with n n' less [OF mem(2) mem(6)] show ?thesis
        by (simp add: compareSpecs_def keyLe_def specKey_def)
    next
      case v: True
      with neq [OF mem(2) mem(6)] have v': "\<not> ?lc (variant a) (variant b) < 0" by auto
      show ?thesis
      proof (cases "implementation a = implementation b")
        case False
        with n n' v v' less [OF mem(3) mem(7)] show ?thesis
          by (simp add: compareSpecs_def keyLe_def specKey_def)
      next
        case i: True
        with neq [OF mem(3) mem(7)]
        have i': "\<not> ?lc (implementation a) (implementation b) < 0" by auto
        show ?thesis
        proof (cases "label (version a) = label (version b)")
          case False
          with n n' v v' i i' less [OF mem(4) mem(8)] show ?thesis
            by (simp add: compareSpecs_def keyLe_def specKey_def)
        next
          case True
          with n n' v v' i i' show ?thesis
            by (simp add: compareSpecs_def keyLe_def specKey_def)
        qed
      qed
    qed
  qed
qed

lemma specKey_in_keyStrings: "s \<in> set ss \<Longrightarrow> set (specKey s) \<subseteq> keyStrings ss"
  by (auto simp: keyStrings_def)

lemma compareSpecs_consistent:
  assumes ord: "strictOrderOn (keyStrings ss) (localeCompare h)"
  shows "consistentOn (set ss) (compareSpecs h)"
  unfolding consistentOn_def
proof (intro conjI ballI impI)
  fix a b assume "a \<in> set ss" "b \<in> set ss"
  then have a: "set (specKey a) \<subseteq> keyStrings ss" and b: "set (specKey b) \<subseteq> keyStrings ss"
    by (simp_all add: specKey_in_keyStrings)
  have "length (specKey a) = length (specKey b)" by (simp add: specKey_def)
  from lexLe_total [OF ord this a b]
  show "compareSpecs h a b \<le> 0 \<or> compareSpecs h b a \<le> 0"
    by (simp add: compareSpecs_le_iff_keyLe [OF ord a b] compareSpecs_le_iff_keyLe [OF ord b a]
        keyLe_def)
next
  fix a b c assume "a \<in> set ss" "b \<in> set ss" "c \<in> set ss"
  then have a: "set (specKey a) \<subseteq> keyStrings ss" and b: "set (specKey b) \<subseteq> keyStrings ss"
    and c: "set (specKey c) \<subseteq> keyStrings ss"
    by (simp_all add: specKey_in_keyStrings)
  assume "compareSpecs h a b \<le> 0 \<and> compareSpecs h b c \<le> 0"
  then have ab: "lexLe (localeCompare h) (specKey a) (specKey b)"
    and bc: "lexLe (localeCompare h) (specKey b) (specKey c)"
    by (simp_all add: compareSpecs_le_iff_keyLe [OF ord a b]
        compareSpecs_le_iff_keyLe [OF ord b c] keyLe_def)
  have "length (specKey a) = length (specKey b)" "length (specKey b) = length (specKey c)"
    by (simp_all add: specKey_def)
  from lexLe_trans [OF ord this a b c ab bc]
  show "compareSpecs h a c \<le> 0"
    by (simp add: compareSpecs_le_iff_keyLe [OF ord a c] keyLe_def)
qed

text \<open>Ordinal comparison is a strict total order on any set of strings.\<close>

lemma ordinalCompare_zero: "(ordinalCompare a b = 0) = (a = b)"
  by (induction a b rule: ordinalCompare.induct) auto

lemma ordinalCompare_flip: "(ordinalCompare a b < 0) = (0 < ordinalCompare b a)"
  by (induction a b rule: ordinalCompare.induct) auto

lemma ordinalCompare_Cons_less:
  "(ordinalCompare (a # as) (b # bs) < 0) =
     ((of_char a :: nat) < of_char b \<or> ((of_char a :: nat) = of_char b \<and> ordinalCompare as bs < 0))"
  by auto

lemma ordinalCompare_trans:
  "ordinalCompare a b < 0 \<Longrightarrow> ordinalCompare b c < 0 \<Longrightarrow> ordinalCompare a c < 0"
proof (induction a arbitrary: b c)
  case Nil
  then show ?case by (cases b; cases c) simp_all
next
  case (Cons x xs)
  from Cons.prems(1) obtain y ys where b: "b = y # ys" by (cases b) auto
  from Cons.prems(2) b obtain z zs where c: "c = z # zs" by (cases c) auto
  from Cons.prems(1) b
  consider "(of_char x :: nat) < of_char y"
    | "(of_char x :: nat) = of_char y" "ordinalCompare xs ys < 0"
    unfolding b ordinalCompare_Cons_less by blast
  then show ?case
  proof cases
    case 1
    from Cons.prems(2) have "(of_char y :: nat) \<le> of_char z"
      unfolding b c ordinalCompare_Cons_less by auto
    with 1 have "(of_char x :: nat) < of_char z" by simp
    then show ?thesis unfolding c ordinalCompare_Cons_less by simp
  next
    case 2
    from Cons.prems(2)
    consider "(of_char y :: nat) < of_char z"
      | "(of_char y :: nat) = of_char z" "ordinalCompare ys zs < 0"
      unfolding b c ordinalCompare_Cons_less by blast
    then show ?thesis
    proof cases
      case 1
      with 2 show ?thesis unfolding c ordinalCompare_Cons_less by simp
    next
      case y: 2
      from Cons.IH [OF 2(2) y(2)] 2(1) y(1) show ?thesis
        unfolding c ordinalCompare_Cons_less by simp
    qed
  qed
qed

lemma strictOrderOn_ordinalCompare: "strictOrderOn S ordinalCompare"
  unfolding strictOrderOn_def
proof (intro conjI ballI impI)
  fix a b :: string
  assume "a \<noteq> b"
  then show "ordinalCompare a b \<noteq> 0" by (simp add: ordinalCompare_zero)
next
  fix a b :: string
  show "(ordinalCompare a b < 0) = (0 < ordinalCompare b a)" by (rule ordinalCompare_flip)
next
  fix a b c :: string
  assume "ordinalCompare a b < 0 \<and> ordinalCompare b c < 0"
  then show "ordinalCompare a c < 0" using ordinalCompare_trans by blast
qed

section \<open>The loops of the expander\<close>




section \<open>The order of the list \<open>specsFromOpts\<close> returns\<close>

lemma keyStrings_cong: "set xs = set ys \<Longrightarrow> keyStrings xs = keyStrings ys"
  by (simp add: keyStrings_def)

lemma specsFromOpts_is_sorted_array:
  assumes "specsFromOpts h repoRoot opts = Inr ss"
  shows "\<exists>acc. ss = sortBy (compareSpecs h) acc"
  using assms by (auto simp: specsFromOpts_def split: sum.splits)

lemma letterHost_fields:
  "path_join letterHost = joinWith ''/''"
  "localeCompare letterHost = alphabeticCompare"
  "fs_readdir letterHost ''/r/benchmarks'' = Inr [''x'']"
  "fs_readdir letterHost ''/r/benchmarks/x'' = Inr [''B'', ''a'']"
  "fs_pathExists letterHost = (\<lambda>p. True)"
  "fs_readConfig letterHost = (\<lambda>p. Inl ''ENOENT'')"
  by (simp_all add: letterHost_def demoHost_def)

lemma alphabeticCompare_letters:
  "alphabeticCompare ''B'' ''a'' = 1"
  "alphabeticCompare ''a'' ''B'' = - 1"
  "ordinalCompare ''a'' ''B'' = 1"
  by (simp_all add: alphabeticCompare_def lowerCase_def)

lemma specsFromOpts_letters:
  "specsFromOpts letterHost ''/r'' wildcardOpts =
     Inr [\<lparr>name = ''a'', implementation = ''x'', version = defaultVersion,
            variant = [], config = Map.empty\<rparr>,
          \<lparr>name = ''B'', implementation = ''x'', version = defaultVersion,
            variant = [], config = Map.empty\<rparr>]"
  by (simp add: expander_defs wildcardOpts_def letterHost_fields alphabeticCompare_letters)

text \<open>
  Claim C2, as the code has it. The list \<open>specsFromOpts\<close> returns is sorted by the key
  (name, variant, implementation, version.label), ties broken by the next component, the
  strings compared by the host's \<open>localeCompare\<close>, not by code unit: whenever
  \<open>localeCompare\<close> is a strict total order on the strings that occur in the keys, every
  spec of the list is at most every later one in the lexicographic order of keys, and so
  is every adjacent pair.
\<close>

theorem specsFromOpts_sorted_by_localeCompare:
  assumes "specsFromOpts h repoRoot opts = Inr ss"
    and ord: "strictOrderOn (keyStrings ss) (localeCompare h)"
  shows "sorted_wrt (keyLe (localeCompare h)) ss
         \<and> (\<forall>i. Suc i < length ss \<longrightarrow> keyLe (localeCompare h) (ss ! i) (ss ! Suc i))"
proof -
  from specsFromOpts_is_sorted_array [OF assms(1)]
  obtain acc where ss: "ss = sortBy (compareSpecs h) acc" by blast
  then have same: "set ss = set acc" by (simp add: set_sortBy)
  from ord keyStrings_cong [OF same] have "strictOrderOn (keyStrings acc) (localeCompare h)"
    by simp
  from sorted_sortBy [OF compareSpecs_consistent [OF this]] ss
  have "sorted_wrt (\<lambda>a b. compareSpecs h a b \<le> 0) ss" by simp
  then have sorted: "sorted_wrt (keyLe (localeCompare h)) ss"
  proof (rule sorted_wrt_mono_rel [rotated])
    fix a b assume "a \<in> set ss" "b \<in> set ss" "compareSpecs h a b \<le> 0"
    then show "keyLe (localeCompare h) a b"
      using compareSpecs_le_iff_keyLe [OF ord, of a b] by (simp add: specKey_in_keyStrings)
  qed
  then have "\<forall>i. Suc i < length ss \<longrightarrow> keyLe (localeCompare h) (ss ! i) (ss ! Suc i)"
    by (simp add: sorted_wrt_nth_less)
  with sorted show ?thesis by simp
qed

theorem specsFromOpts_sorted_by_localeCompare_witness:
  "\<exists>ss. specsFromOpts demoHost ''/r'' demoOpts = Inr ss
     \<and> length ss = 2
     \<and> sorted_wrt (keyLe ordinalCompare) ss
     \<and> keyLe ordinalCompare (ss ! 0) (ss ! 1)"
proof -
  let ?ss = "[\<lparr>name = ''bar'', implementation = ''foo'', version = defaultVersion,
                 variant = ''v1'', config = Map.empty\<rparr>,
               \<lparr>name = ''bar'', implementation = ''foo'', version = defaultVersion,
                 variant = ''v2'', config = [''size'' \<mapsto> ''10'']\<rparr>]"
  have ord: "strictOrderOn (keyStrings ?ss) (localeCompare demoHost)"
    by (simp add: demoHost_fields strictOrderOn_ordinalCompare)
  note sorted = specsFromOpts_sorted_by_localeCompare [OF specsFromOpts_demo ord]
  from sorted have all: "sorted_wrt (keyLe ordinalCompare) ?ss"
    by (simp only: demoHost_fields)
  from sorted have "Suc 0 < length ?ss \<longrightarrow> keyLe (localeCompare demoHost) (?ss ! 0) (?ss ! Suc 0)"
    by blast
  then have "keyLe ordinalCompare (?ss ! 0) (?ss ! 1)"
    by (simp add: demoHost_fields)
  with all specsFromOpts_demo show ?thesis
    by (intro exI [of _ ?ss]) simp
qed

text \<open>The claim as stated, with ordinal comparison, fails on a host whose strings compare
  alphabetically: the benchmark \<open>a\<close> comes before the benchmark \<open>B\<close>, though the code
  unit of \<open>B\<close> is the smaller one.\<close>

theorem specsFromOpts_not_ordinal_counterexample:
  "specsFromOpts letterHost ''/r'' wildcardOpts =
     Inr [\<lparr>name = ''a'', implementation = ''x'', version = defaultVersion,
            variant = [], config = Map.empty\<rparr>,
          \<lparr>name = ''B'', implementation = ''x'', version = defaultVersion,
            variant = [], config = Map.empty\<rparr>]
   \<and> \<not> keyLe ordinalCompare
          \<lparr>name = ''a'', implementation = ''x'', version = defaultVersion,
            variant = [], config = Map.empty\<rparr>
          \<lparr>name = ''B'', implementation = ''x'', version = defaultVersion,
            variant = [], config = Map.empty\<rparr>"
  using specsFromOpts_letters by (simp add: keyLe_def specKey_def)

section \<open>The version list of an implementation\<close>









section \<open>Variant selection for one benchmark\<close>









section \<open>\<open>JSON.parse\<close> reads back what \<open>JSON.stringify\<close> wrote\<close>












section \<open>Grouping two specs\<close>







end
